theory Spec2Isabelle
  imports Complex_Main "HOL-Library.Sublist" "HOL-Library.AList" "HOL-Library.Multiset"
begin

section \<open>Python values\<close>

text \<open>
  A Python \<open>str\<close> is a sequence of Unicode code points, and \<open>len\<close>, slicing and
  \<open>strip\<close> count code points. A string is therefore a list of code points (natural
  numbers); \<open>py\<close> turns an ASCII literal of the source into such a list.
\<close>

type_synonym codepoint = nat
type_synonym pystr = "codepoint list"

definition py :: "string \<Rightarrow> pystr" where
  "py s = map of_char s"

text \<open>
  A Python number is an \<open>int\<close> or a \<open>float\<close>. The integers are modelled exactly; the
  type of the floats (IEEE 754 binary64 values) is left unspecified, and so is every
  operation on them: the arithmetic is a parameter of the functions that compute with
  numbers.
\<close>

typedecl pyfloat

datatype pynum = PyInt int | PyFloat pyfloat

text \<open>
  Exceptions are values. \<open>ValueError\<close> carries its message; the other constructors stand
  for what the libraries the program calls may raise.
\<close>

datatype error =
    ValueError pystr
  | LookupError pystr
  | UnboundLocalError pystr
  | OverflowError pystr
  | OtherException pystr

section \<open>Collected data\<close>

text \<open>
  \<open>collect_user_data\<close> stores each submission and each comment as a dict. The
  records keep the keys that the functions below read; the remaining keys (\<open>id\<close>,
  \<open>upvote_ratio\<close>, \<open>num_comments\<close>, \<open>url\<close>, \<open>is_self\<close>, \<open>parent_id\<close>, \<open>type\<close>) are
  never read by them. Scores are integers. A creation time is a number: a \<open>float\<close> as
  the Reddit client delivers it, an \<open>int\<close> in \<open>create_mock_data\<close> of \<open>test_example.py\<close>.
\<close>

record post =
  p_title :: pystr
  p_selftext :: pystr
  p_subreddit :: pystr
  p_score :: int
  p_created_utc :: pynum
  p_permalink :: pystr

record comment =
  c_body :: pystr
  c_subreddit :: pystr
  c_score :: int
  c_created_utc :: pynum
  c_permalink :: pystr

text \<open>
  \<open>self.user_data\<close> starts as the empty dict and is read with
  \<open>.get('posts', [])\<close> and \<open>.get('comments', [])\<close>: a missing key is \<open>None\<close> here.
\<close>

record user_data =
  ud_posts :: "post list option"
  ud_comments :: "comment list option"

definition get_posts :: "user_data \<Rightarrow> post list" where
  "get_posts d = (case ud_posts d of None \<Rightarrow> [] | Some ps \<Rightarrow> ps)"

definition get_comments :: "user_data \<Rightarrow> comment list" where
  "get_comments d = (case ud_comments d of None \<Rightarrow> [] | Some cs \<Rightarrow> cs)"

section \<open>Citation extractor\<close>

record citation =
  cit_type :: pystr
  cit_content :: pystr
  cit_url :: pystr
  cit_score :: int

record citations =
  personality_traits :: "citation list"
  interests :: "citation list"
  communication_style :: "citation list"
  behavior_patterns :: "citation list"
  values_beliefs :: "citation list"

definition empty_citations :: citations where
  "empty_citations =
     \<lparr>personality_traits = [], interests = [], communication_style = [],
      behavior_patterns = [], values_beliefs = []\<rparr>"

definition post_citation :: "post \<Rightarrow> citation" where
  "post_citation p =
     \<lparr>cit_type = py ''post'',
      cit_content = take 100 (p_title p) @ py ''...'',
      cit_url = py ''https://reddit.com'' @ p_permalink p,
      cit_score = p_score p\<rparr>"

definition comment_citation :: "comment \<Rightarrow> citation" where
  "comment_citation c =
     \<lparr>cit_type = py ''comment'',
      cit_content = take 100 (c_body c) @ py ''...'',
      cit_url = py ''https://reddit.com'' @ c_permalink c,
      cit_score = c_score c\<rparr>"

text \<open>The two \<open>for\<close> loops of \<open>_generate_citations\<close>, appending to one list each.\<close>

fun cite_posts :: "post list \<Rightarrow> citations \<Rightarrow> citations" where
  "cite_posts [] cs = cs"
| "cite_posts (p # ps) cs =
     cite_posts ps
       (if p_score p > 10 then cs\<lparr>interests := interests cs @ [post_citation p]\<rparr> else cs)"

fun cite_comments :: "comment list \<Rightarrow> citations \<Rightarrow> citations" where
  "cite_comments [] cs = cs"
| "cite_comments (c # rest) cs =
     cite_comments rest
       (if c_score c > 5
        then cs\<lparr>communication_style := communication_style cs @ [comment_citation c]\<rparr>
        else cs)"

definition generate_citations :: "user_data \<Rightarrow> citations" where
  "generate_citations d =
     cite_comments (get_comments d) (cite_posts (get_posts d) empty_citations)"

text \<open>The dataset of \<open>create_mock_data\<close> in \<open>test_example.py\<close>.\<close>

definition mock_data :: user_data where
  "mock_data =
     \<lparr>ud_posts = Some
        [\<lparr>p_title = py ''My experience with Python async programming'',
          p_selftext = py ''I recently started learning async programming in Python and wanted to share my journey. The asyncio library has been a game-changer for my web scraping projects.'',
          p_subreddit = py ''programming'',
          p_score = 127,
          p_created_utc = PyInt 1700000000,
          p_permalink = py ''/r/programming/comments/post1''\<rparr>,
         \<lparr>p_title = py ''Best practices for machine learning projects'',
          p_selftext = py ''After working on several ML projects, here are the key lessons I learned about data preprocessing, model selection, and deployment.'',
          p_subreddit = py ''MachineLearning'',
          p_score = 89,
          p_created_utc = PyInt 1699000000,
          p_permalink = py ''/r/MachineLearning/comments/post2''\<rparr>],
      ud_comments = Some
        [\<lparr>c_body = py ''Great question! I think the key is to start with simple models and gradually increase complexity. Also, make sure to validate your assumptions.'',
          c_subreddit = py ''datascience'',
          c_score = 15,
          c_created_utc = PyInt 1698000000,
          c_permalink = py ''/r/datascience/comments/comment1''\<rparr>,
         \<lparr>c_body = py ''I completely agree with your analysis. The documentation could definitely be improved. Have you tried looking at the GitHub issues?'',
          c_subreddit = py ''programming'',
          c_score = 8,
          c_created_utc = PyInt 1697000000,
          c_permalink = py ''/r/programming/comments/comment2''\<rparr>]\<rparr>"

section \<open>Input normalizer\<close>

text \<open>
  \<open>str.isspace\<close> of one character: the code points that \<open>str.strip()\<close> without
  argument removes.
\<close>

definition isspace :: "codepoint \<Rightarrow> bool" where
  "isspace c =
     (c \<in> set [9, 10, 11, 12, 13, 28, 29, 30, 31, 32, 133, 160, 5760]
      \<or> (8192 \<le> c \<and> c \<le> 8202)
      \<or> c \<in> set [8232, 8233, 8239, 8287, 12288])"

definition strip_where :: "('a \<Rightarrow> bool) \<Rightarrow> 'a list \<Rightarrow> 'a list" where
  "strip_where P s = rev (dropWhile P (rev (dropWhile P s)))"

text \<open>\<open>s.strip()\<close> and \<open>s.strip(chars)\<close>.\<close>

definition strip :: "pystr \<Rightarrow> pystr" where
  "strip s = strip_where isspace s"

definition strip_chars :: "pystr \<Rightarrow> pystr \<Rightarrow> pystr" where
  "strip_chars chars s = strip_where (\<lambda>c. c \<in> set chars) s"

text \<open>
  \<open>s.split(sep)\<close> for a separator of one character: the result is never empty, and
  adjacent separators give empty fields.
\<close>

fun split_char :: "'a \<Rightarrow> 'a list \<Rightarrow> 'a list list" where
  "split_char sep [] = [[]]"
| "split_char sep (c # cs) =
     (if c = sep then [] # split_char sep cs
      else (case split_char sep cs of [] \<Rightarrow> [[c]] | w # ws \<Rightarrow> (c # w) # ws))"

text \<open>
  \<open>s.replace(old, new)\<close>: the occurrences of \<open>old\<close> are replaced from left to right
  without overlap; an empty \<open>old\<close> matches before every character and at the end.
\<close>

function py_replace :: "'a list \<Rightarrow> 'a list \<Rightarrow> 'a list \<Rightarrow> 'a list" where
  "py_replace old new [] = (if old = [] then new else [])"
| "py_replace old new (c # cs) =
     (if old = [] then new @ c # py_replace old new cs
      else if prefix old (c # cs) then new @ py_replace old new (drop (length old) (c # cs))
      else c # py_replace old new cs)"
  by pat_completeness auto
termination
  by (relation "measure (\<lambda>(old, new, s). length s)") auto

definition slash :: codepoint where
  "slash = of_char CHR ''/''"

text \<open>
  \<open>urlparse\<close> belongs to Python's standard library, not to this program, and may raise
  \<open>ValueError\<close> itself. The model takes \<open>urlparse(url).path\<close> as the parameter
  \<open>urlparse_path\<close>. The \<open>except\<close> clause of the function logs and raises the same
  exception again, so an error is returned as it is.
\<close>

definition extract_username_from_url :: "(pystr \<Rightarrow> error + pystr) \<Rightarrow> pystr \<Rightarrow> error + pystr" where
  "extract_username_from_url urlparse_path url0 =
     (let url = strip url0 in
      if prefix (py ''u/'') url \<or> prefix (py ''/u/'') url then
        Inr (last (split_char slash url))
      else if prefix (py ''reddit.com/u/'') url \<or> prefix (py ''reddit.com/user/'') url then
        Inr (last (split_char slash url))
      else if sublist (py ''reddit.com'') url then
        (case urlparse_path url of
           Inl e \<Rightarrow> Inl e
         | Inr path \<Rightarrow>
             (let path_parts = split_char slash (strip_chars (py ''/'') path) in
              if length path_parts \<ge> 2 \<and> path_parts ! 0 \<in> set [py ''user'', py ''u''] then
                Inr (path_parts ! 1)
              else Inl (ValueError (py ''Invalid Reddit profile URL format''))))
      else Inr (py_replace (py ''/u/'') [] (py_replace (py ''u/'') [] url)))"

text \<open>
  Values of \<open>urlparse(url).path\<close> on some URLs, for concrete evaluations; the first is
  the URL that \<open>test_example.py\<close> passes to \<open>generate_persona\<close>.
\<close>

definition urlparse_path_table :: "pystr \<Rightarrow> error + pystr" where
  "urlparse_path_table u =
     (if u = py ''https://www.reddit.com/user/kojied/'' then Inr (py ''/user/kojied/'')
      else if u = py ''https://reddit.com/user/alice/'' then Inr (py ''/user/alice/'')
      else if u = py ''https://reddit.com/u/bob/comments'' then Inr (py ''/u/bob/comments'')
      else if u = py ''https://www.reddit.com/r/python/'' then Inr (py ''/r/python/'')
      else if u = py ''www.reddit.com/user/alice'' then Inr (py ''www.reddit.com/user/alice'')
      else if u = py ''reddit.com/u/'' then Inr (py ''reddit.com/u/'')
      else if u = py '' reddit.com/u/'' then Inr (py ''reddit.com/u/'')
      else if u = py ''http://[reddit.com/user/x'' then Inl (ValueError (py ''Invalid IPv6 URL''))
      else Inl (OtherException (py ''not in the table'')))"

text \<open>
  The words of the specification about the normalizer: the four recognized prefixes, the
  segments of a parsed path (the fields between its slashes, surrounding slashes apart),
  a path that begins with a \<open>user\<close> or \<open>u\<close> segment followed by a name segment, and
  the error \<open>InvalidInput\<close>, which the program raises as a \<open>ValueError\<close>.
\<close>

definition recognized_prefix :: "pystr \<Rightarrow> bool" where
  "recognized_prefix u =
     (prefix (py ''u/'') u \<or> prefix (py ''/u/'') u
      \<or> prefix (py ''reddit.com/u/'') u \<or> prefix (py ''reddit.com/user/'') u)"

definition path_segments :: "pystr \<Rightarrow> pystr list" where
  "path_segments p = split_char slash (strip_chars (py ''/'') p)"

definition profile_path :: "pystr \<Rightarrow> bool" where
  "profile_path p =
     (case path_segments p of
        seg # name # rest \<Rightarrow> seg = py ''user'' \<or> seg = py ''u''
      | _ \<Rightarrow> False)"

definition invalid_input :: error where
  "invalid_input = ValueError (py ''Invalid Reddit profile URL format'')"

section \<open>Text analyzer\<close>

text \<open>
  The analyzer calls NLTK (\<open>stopwords.words('english')\<close>, \<open>word_tokenize\<close>) and the
  built-in \<open>str.lower\<close> and \<open>str.isalnum\<close>. They are not code of this program: the
  model takes them as parameters, gathered in one record. The two NLTK functions may
  raise (\<open>LookupError\<close> when their data is not installed).
\<close>

record text_lib =
  lib_stopwords :: "error + pystr list"
  lib_word_tokenize :: "pystr \<Rightarrow> error + pystr list"
  lib_lower :: "pystr \<Rightarrow> pystr"
  lib_isalnum :: "pystr \<Rightarrow> bool"

text \<open>\<open>sep.join(xs)\<close>.\<close>

fun join :: "'a list \<Rightarrow> 'a list list \<Rightarrow> 'a list" where
  "join sep [] = []"
| "join sep [x] = x"
| "join sep (x # y # ys) = x @ sep @ join sep (y # ys)"

text \<open>
  A \<open>dict\<close> keeps its keys in insertion order, and \<open>items()\<close> lists them in that order:
  an association list, where an update keeps the position of an existing key and appends
  a new one. \<open>d.get(k, default)\<close> is \<open>dict_get\<close>.
\<close>

definition dict_get :: "('k \<times> 'v) list \<Rightarrow> 'k \<Rightarrow> 'v \<Rightarrow> 'v" where
  "dict_get d k dflt = (case map_of d k of None \<Rightarrow> dflt | Some v \<Rightarrow> v)"

text \<open>The counting loops: \<open>for k in ks: d[k] = d.get(k, 0) + 1\<close>.\<close>

fun count_keys :: "('k \<times> int) list \<Rightarrow> 'k list \<Rightarrow> ('k \<times> int) list" where
  "count_keys d [] = d"
| "count_keys d (k # ks) = count_keys (AList.update k (dict_get d k 0 + 1) d) ks"

text \<open>
  \<open>sorted(d.items(), key=lambda x: x[1], reverse=True)\<close>: descending in the count,
  and stable, so items of equal count keep their order.
\<close>

definition sorted_by_count_desc :: "('k \<times> int) list \<Rightarrow> ('k \<times> int) list" where
  "sorted_by_count_desc items = sort_key (\<lambda>x. - snd x) items"

record topics =
  top_words :: "(pystr \<times> int) list"
  total_words :: nat
  unique_words :: nat

definition topics_default :: topics where
  "topics_default = \<lparr>top_words = [], total_words = 0, unique_words = 0\<rparr>"

text \<open>\<open>try: body except Exception as e: handler\<close>.\<close>

definition try_except :: "error + 'a \<Rightarrow> (error \<Rightarrow> error + 'a) \<Rightarrow> error + 'a" where
  "try_except body handler = (case body of Inl e \<Rightarrow> handler e | Inr v \<Rightarrow> Inr v)"

text \<open>The words that the comprehension of \<open>extract_topics_and_interests\<close> keeps.\<close>

definition keep_words :: "text_lib \<Rightarrow> pystr list \<Rightarrow> pystr list \<Rightarrow> pystr list" where
  "keep_words lib stop_words toks =
     filter (\<lambda>word. lib_isalnum lib word \<and> word \<notin> set stop_words \<and> length word > 3) toks"

definition topics_of_words :: "pystr list \<Rightarrow> topics" where
  "topics_of_words ws =
     (let word_freq = count_keys [] ws;
          top = take 20 (sorted_by_count_desc word_freq)
      in \<lparr>top_words = top, total_words = length ws, unique_words = length word_freq\<rparr>)"

text \<open>The body of the \<open>try\<close> block, and the function with its \<open>except\<close> clause.\<close>

definition extract_topics_body :: "text_lib \<Rightarrow> pystr list \<Rightarrow> error + topics" where
  "extract_topics_body lib texts =
     (let combined_text = join (py '' '') texts in
      case lib_stopwords lib of
        Inl e \<Rightarrow> Inl e
      | Inr stop_words \<Rightarrow>
          (case lib_word_tokenize lib (lib_lower lib combined_text) of
             Inl e \<Rightarrow> Inl e
           | Inr toks \<Rightarrow> Inr (topics_of_words (keep_words lib stop_words toks))))"

definition extract_topics_and_interests :: "text_lib \<Rightarrow> pystr list \<Rightarrow> error + topics" where
  "extract_topics_and_interests lib texts =
     try_except (extract_topics_body lib texts) (\<lambda>e. Inr topics_default)"

text \<open>
  The arithmetic of \<open>analyze_user_activity_patterns\<close> is Python's own: \<open>list.sort\<close>
  on a list of numbers, the subtraction of two numbers, the built-in \<open>sum\<close> and the
  true division \<open>/\<close>. On floats these round, and on large integers the conversion to
  \<open>float\<close> raises \<open>OverflowError\<close>. The model takes the four operations as parameters;
  all but the sort may raise.
\<close>

record py_arith =
  num_sorted :: "pynum list \<Rightarrow> pynum list"
  num_sub :: "pynum \<Rightarrow> pynum \<Rightarrow> error + pynum"
  num_sum :: "pynum list \<Rightarrow> error + pynum"
  num_truediv :: "pynum \<Rightarrow> pynum \<Rightarrow> error + pynum"

text \<open>A list comprehension whose elements may raise: the first exception ends it.\<close>

fun sequence :: "(error + 'a) list \<Rightarrow> error + 'a list" where
  "sequence [] = Inr []"
| "sequence (x # xs) =
     (case x of
        Inl e \<Rightarrow> Inl e
      | Inr v \<Rightarrow> (case sequence xs of Inl e \<Rightarrow> Inl e | Inr vs \<Rightarrow> Inr (v # vs)))"

record activity =
  avg_time_between_posts :: pynum
  top_subreddits :: "(pystr \<times> int) list"
  total_subreddits :: nat
  post_count :: nat
  comment_count :: nat

text \<open>
  \<open>[post_times[i+1] - post_times[i] for i in range(len(post_times)-1)]\<close>, and the
  average that follows it; without posts, or without any difference, the average is
  the integer 0.
\<close>

definition time_diffs_of :: "py_arith \<Rightarrow> pynum list \<Rightarrow> error + pynum list" where
  "time_diffs_of ar post_times =
     sequence (map (\<lambda>i. num_sub ar (post_times ! (i + 1)) (post_times ! i))
                 [0 ..< length post_times - 1])"

definition average_gap :: "py_arith \<Rightarrow> post list \<Rightarrow> error + pynum" where
  "average_gap ar posts =
     (if posts \<noteq> [] then
        (let post_times = num_sorted ar (map p_created_utc posts) in
         case time_diffs_of ar post_times of
           Inl e \<Rightarrow> Inl e
         | Inr time_diffs \<Rightarrow>
             if time_diffs \<noteq> [] then
               (case num_sum ar time_diffs of
                  Inl e \<Rightarrow> Inl e
                | Inr sum_diffs \<Rightarrow> num_truediv ar sum_diffs (PyInt (int (length time_diffs))))
             else Inr (PyInt 0))
      else Inr (PyInt 0))"

text \<open>
  The body of the \<open>try\<close> block of \<open>analyze_user_activity_patterns\<close>, and the function
  with its \<open>except\<close> clause, which returns the empty dict: \<open>None\<close> here. The callers
  read the result with \<open>.get(key, default)\<close>; \<open>get_top_subreddits\<close> is
  \<open>.get('top_subreddits', [])\<close>.
\<close>

definition analyze_body :: "py_arith \<Rightarrow> user_data \<Rightarrow> error + activity option" where
  "analyze_body ar d =
     (let posts = get_posts d;
          comments = get_comments d
      in case average_gap ar posts of
           Inl e \<Rightarrow> Inl e
         | Inr avg \<Rightarrow>
             (let subreddit_counts =
                    count_keys (count_keys [] (map p_subreddit posts)) (map c_subreddit comments)
              in Inr (Some
                   \<lparr>avg_time_between_posts = avg,
                    top_subreddits = take 10 (sorted_by_count_desc subreddit_counts),
                    total_subreddits = length subreddit_counts,
                    post_count = length posts,
                    comment_count = length comments\<rparr>)))"

definition analyze_user_activity_patterns ::
  "py_arith \<Rightarrow> user_data \<Rightarrow> error + activity option" where
  "analyze_user_activity_patterns ar d = try_except (analyze_body ar d) (\<lambda>e. Inr None)"

definition get_top_subreddits :: "activity option \<Rightarrow> (pystr \<times> int) list" where
  "get_top_subreddits r = (case r of None \<Rightarrow> [] | Some a \<Rightarrow> top_subreddits a)"

text \<open>
  Two stand-ins for the arithmetic, for concrete evaluations. The first is exact on
  integers: it sorts them ascending and gives a quotient when it is a whole number (which
  stands for the float of that value); on anything else it raises. In the second every
  true division overflows.
\<close>

fun is_int :: "pynum \<Rightarrow> bool" where
  "is_int (PyInt i) = True"
| "is_int (PyFloat f) = False"

fun int_val :: "pynum \<Rightarrow> int" where
  "int_val (PyInt i) = i"
| "int_val (PyFloat f) = 0"

definition unsupported :: error where
  "unsupported = OtherException (py ''not an integer'')"

definition int_arith :: py_arith where
  "int_arith =
     \<lparr>num_sorted = (\<lambda>xs. if list_all is_int xs then map PyInt (sort (map int_val xs)) else xs),
      num_sub = (\<lambda>x y. if is_int x \<and> is_int y then Inr (PyInt (int_val x - int_val y))
                        else Inl unsupported),
      num_sum = (\<lambda>xs. if list_all is_int xs then Inr (PyInt (sum_list (map int_val xs)))
                       else Inl unsupported),
      num_truediv = (\<lambda>x y. if is_int x \<and> is_int y \<and> int_val y \<noteq> 0
                                \<and> int_val x mod int_val y = 0
                            then Inr (PyInt (int_val x div int_val y))
                            else Inl unsupported)\<rparr>"

definition overflowing_arith :: py_arith where
  "overflowing_arith =
     int_arith\<lparr>num_truediv :=
       (\<lambda>x y. Inl (OverflowError (py ''integer division result too large for a float'')))\<rparr>"

text \<open>
  A small stand-in for the library, for concrete evaluations: tokens are the fields
  between spaces, letters are the ASCII letters.
\<close>

definition ascii_lower :: "codepoint \<Rightarrow> codepoint" where
  "ascii_lower c = (if 65 \<le> c \<and> c \<le> 90 then c + 32 else c)"

definition ascii_alnum :: "codepoint \<Rightarrow> bool" where
  "ascii_alnum c = ((48 \<le> c \<and> c \<le> 57) \<or> (65 \<le> c \<and> c \<le> 90) \<or> (97 \<le> c \<and> c \<le> 122))"

definition simple_lib :: text_lib where
  "simple_lib =
     \<lparr>lib_stopwords = Inr [py ''that'', py ''this'', py ''with'', py ''have'', py ''from''],
      lib_word_tokenize = (\<lambda>s. Inr (filter (\<lambda>w. w \<noteq> []) (split_char 32 s))),
      lib_lower = map ascii_lower,
      lib_isalnum = (\<lambda>w. w \<noteq> [] \<and> list_all ascii_alnum w)\<rparr>"

text \<open>A library whose NLTK data is missing.\<close>

definition missing_data_lib :: text_lib where
  "missing_data_lib =
     simple_lib\<lparr>lib_word_tokenize := (\<lambda>s. Inl (LookupError (py ''Resource punkt not found'')))\<rparr>"

text \<open>The texts of \<open>test_analysis_functions\<close> in \<open>test_example.py\<close>.\<close>

definition test_texts :: "pystr list" where
  "test_texts =
     [py ''I love programming in Python and machine learning'',
      py ''The async programming features are amazing'',
      py ''Data science projects require careful planning'']"

section \<open>LLM client\<close>

text \<open>
  The retry loop of \<open>generate_persona_with_llm\<close>. The prompt is built before the loop
  and is the same at every attempt; the model starts at the loop. The generative API is
  the parameter \<open>gen\<close>: \<open>gen i\<close> is what the call of attempt \<open>i\<close> gives, \<open>Inl e\<close> when
  the call (or reading \<open>response.text\<close>) raises \<open>e\<close>, \<open>Inr text\<close> otherwise, with the
  empty text for a response that is false or has no text. The trace records the calls and
  the sleeps in order.
\<close>

datatype event = Call nat | Sleep nat

datatype step = Break pystr | Continue | Raised error

definition empty_response :: error where
  "empty_response = ValueError (py ''Gemini returned empty response after all retries'')"

text \<open>The \<open>try\<close> block of one attempt.\<close>

definition attempt_body :: "(nat \<Rightarrow> error + pystr) \<Rightarrow> nat \<Rightarrow> nat \<Rightarrow> step \<times> event list" where
  "attempt_body gen max_retries attempt =
     (case gen attempt of
        Inl e \<Rightarrow> (Raised e, [Call attempt])
      | Inr text \<Rightarrow>
          if text \<noteq> [] then (Break text, [Call attempt])
          else if attempt = max_retries - 1 then (Raised empty_response, [Call attempt])
          else (Continue, [Call attempt, Sleep 2]))"

text \<open>
  \<open>for attempt in range(max_retries)\<close>, with the \<open>except\<close> clause of the attempt, which
  also catches the \<open>ValueError\<close> raised inside the \<open>try\<close> block. When the loop ends
  without \<open>break\<close>, \<open>persona_text\<close> was never bound.
\<close>

function retry_loop ::
  "(nat \<Rightarrow> error + pystr) \<Rightarrow> nat \<Rightarrow> nat \<Rightarrow> event list \<Rightarrow> (error + pystr) \<times> event list" where
  "retry_loop gen max_retries attempt trace =
     (if attempt \<ge> max_retries then (Inl (UnboundLocalError (py ''persona_text'')), trace)
      else
        (case attempt_body gen max_retries attempt of
           (Break text, evs) \<Rightarrow> (Inr text, trace @ evs)
         | (Continue, evs) \<Rightarrow> retry_loop gen max_retries (attempt + 1) (trace @ evs)
         | (Raised e, evs) \<Rightarrow>
             if attempt = max_retries - 1 then (Inl e, trace @ evs)
             else retry_loop gen max_retries (attempt + 1) (trace @ evs @ [Sleep 2])))"
  by pat_completeness auto
termination
  by (relation "measure (\<lambda>(gen, max_retries, attempt, trace). max_retries - attempt)") auto

definition generate_persona_with_llm ::
  "(nat \<Rightarrow> error + pystr) \<Rightarrow> user_data \<Rightarrow> (error + pystr \<times> citations) \<times> event list" where
  "generate_persona_with_llm gen d =
     (case retry_loop gen 3 0 [] of
        (Inl e, trace) \<Rightarrow> (Inl e, trace)
      | (Inr persona_text, trace) \<Rightarrow> (Inr (persona_text, generate_citations d), trace))"

text \<open>What the claims say about one attempt and about the trace.\<close>

definition attempt_ok :: "(nat \<Rightarrow> error + pystr) \<Rightarrow> nat \<Rightarrow> bool" where
  "attempt_ok gen i = (case gen i of Inl e \<Rightarrow> False | Inr text \<Rightarrow> text \<noteq> [])"

definition last_error :: "(nat \<Rightarrow> error + pystr) \<Rightarrow> nat \<Rightarrow> error" where
  "last_error gen i = (case gen i of Inl e \<Rightarrow> e | Inr text \<Rightarrow> empty_response)"

fun is_call :: "event \<Rightarrow> bool" where
  "is_call (Call i) = True"
| "is_call (Sleep n) = False"

definition calls :: "event list \<Rightarrow> nat" where
  "calls trace = length (filter is_call trace)"

section \<open>Properties of the citation extractor\<close>

lemma cite_posts_eq:
  "cite_posts ps cs = cs\<lparr>interests := interests cs @ map post_citation (filter (\<lambda>p. p_score p > 10) ps)\<rparr>"
  by (induction ps arbitrary: cs) auto

lemma cite_comments_eq:
  "cite_comments xs cs =
     cs\<lparr>communication_style :=
          communication_style cs @ map comment_citation (filter (\<lambda>c. c_score c > 5) xs)\<rparr>"
  by (induction xs arbitrary: cs) auto

lemma generate_citations_eq:
  "generate_citations d =
     \<lparr>personality_traits = [],
      interests = map post_citation (filter (\<lambda>p. p_score p > 10) (get_posts d)),
      communication_style = map comment_citation (filter (\<lambda>c. c_score c > 5) (get_comments d)),
      behavior_patterns = [],
      values_beliefs = []\<rparr>"
  by (simp add: generate_citations_def cite_posts_eq cite_comments_eq empty_citations_def)


lemma length_filter_map_mset:
  "length (filter (\<lambda>x. P (f x)) xs) = size (filter_mset P (mset (map f xs)))"
  by (induction xs) auto

text \<open>
  C4. For every collected dataset the result has five category lists: \<open>interests\<close> holds
  one record per post with score above 10, in order, \<open>communication_style\<close> one record
  per comment with score above 5, and the other three lists are empty. A record's content
  is the first 100 characters of the title (or comment body) followed by \<open>...\<close>, hence
  at most 103 characters; its URL is \<open>https://reddit.com\<close> followed by the stored
  permalink; its score is the original score.
\<close>

theorem generate_citations_categories:
  "interests (generate_citations d) =
     map post_citation (filter (\<lambda>p. p_score p > 10) (get_posts d))
   \<and> communication_style (generate_citations d) =
     map comment_citation (filter (\<lambda>c. c_score c > 5) (get_comments d))
   \<and> personality_traits (generate_citations d) = []
   \<and> behavior_patterns (generate_citations d) = []
   \<and> values_beliefs (generate_citations d) = []
   \<and> cit_content (post_citation p) = take 100 (p_title p) @ py ''...''
   \<and> length (cit_content (post_citation p)) = min 100 (length (p_title p)) + 3
   \<and> length (cit_content (post_citation p)) \<le> 103
   \<and> cit_url (post_citation p) = py ''https://reddit.com'' @ p_permalink p
   \<and> cit_score (post_citation p) = p_score p
   \<and> cit_content (comment_citation c) = take 100 (c_body c) @ py ''...''
   \<and> length (cit_content (comment_citation c)) = min 100 (length (c_body c)) + 3
   \<and> length (cit_content (comment_citation c)) \<le> 103
   \<and> cit_url (comment_citation c) = py ''https://reddit.com'' @ c_permalink c
   \<and> cit_score (comment_citation c) = c_score c"
  by (simp add: generate_citations_eq post_citation_def comment_citation_def py_def min.commute)

text \<open>
  C1, as stated, fails on the dataset of \<open>create_mock_data\<close>: both posts (scores 127
  and 89) exceed the threshold 10, so \<open>interests\<close> receives two citations, not one.
\<close>

theorem mock_data_citations_counterexample:
  "\<not> (length (interests (generate_citations mock_data)) = 1
      \<and> length (communication_style (generate_citations mock_data)) = 2)"
  by (simp add: generate_citations_eq mock_data_def get_posts_def get_comments_def)

text \<open>
  C1, amended. A dataset with exactly two posts, of scores 127 and 89, and exactly two
  comments, of scores 15 and 8, yields exactly two citations under \<open>interests\<close> and
  exactly two under \<open>communication_style\<close>.
\<close>

theorem example_scores_citations:
  assumes "mset (map p_score (get_posts d)) = {#127, 89#}"
    and "mset (map c_score (get_comments d)) = {#15, 8#}"
  shows "length (interests (generate_citations d)) = 2
       \<and> length (communication_style (generate_citations d)) = 2"
proof -
  have "length (filter (\<lambda>p. 10 < p_score p) (get_posts d))
          = size (filter_mset (\<lambda>s. 10 < s) {#127, 89 :: int#})"
    using length_filter_map_mset [of "\<lambda>s. 10 < s" p_score "get_posts d"] assms(1) by simp
  moreover have "length (filter (\<lambda>c. 5 < c_score c) (get_comments d))
          = size (filter_mset (\<lambda>s. 5 < s) {#15, 8 :: int#})"
    using length_filter_map_mset [of "\<lambda>s. 5 < s" c_score "get_comments d"] assms(2) by simp
  ultimately show ?thesis
    by (simp add: generate_citations_eq)
qed

theorem example_scores_citations_witness:
  "mset (map p_score (get_posts mock_data)) = {#127, 89#}
   \<and> mset (map c_score (get_comments mock_data)) = {#15, 8#}
   \<and> length (interests (generate_citations mock_data)) = 2
   \<and> length (communication_style (generate_citations mock_data)) = 2"
proof -
  have h1: "mset (map p_score (get_posts mock_data)) = {#127, 89#}"
    by (simp add: mock_data_def get_posts_def)
  have h2: "mset (map c_score (get_comments mock_data)) = {#15, 8#}"
    by (simp add: mock_data_def get_comments_def)
  show ?thesis
    using h1 h2 example_scores_citations [OF h1 h2] by simp
qed

section \<open>Properties of the input normalizer\<close>

lemma strip_where_id:
  "s = [] \<or> (\<not> P (hd s) \<and> \<not> P (last s)) \<Longrightarrow> strip_where P s = s"
proof (cases "s = []")
  case True
  then show ?thesis by (simp add: strip_where_def)
next
  case False
  assume "s = [] \<or> (\<not> P (hd s) \<and> \<not> P (last s))"
  with False have h: "\<not> P (hd s)" and l: "\<not> P (last s)" by auto
  from False h have d: "dropWhile P s = s" by (cases s) auto
  from False l have "\<not> P (hd (rev s))" by (simp add: hd_rev)
  with False have "dropWhile P (rev s) = rev s" by (cases "rev s") auto
  with d show ?thesis by (simp add: strip_where_def)
qed

lemma sublist_strip_where: "sublist (strip_where P s) s"
proof -
  have "sublist (rev (dropWhile P (rev (dropWhile P s)))) (dropWhile P s)"
    by (metis sublist_dropWhile sublist_rev_left)
  then show ?thesis
    unfolding strip_where_def using sublist_dropWhile sublist_order.order_trans by blast
qed

lemma sublist_dropWhile_iff:
  assumes "r \<noteq> []" "\<not> P (hd r)"
  shows "sublist r (dropWhile P s) \<longleftrightarrow> sublist r s"
proof (induction s)
  case Nil
  then show ?case by simp
next
  case (Cons c s)
  show ?case
  proof (cases "P c")
    case True
    with assms have "\<not> prefix r (c # s)"
      by (cases r) auto
    with True Cons show ?thesis
      by (simp add: sublist_Cons_right)
  next
    case False
    then show ?thesis by simp
  qed
qed

lemma strip_where_sublist_iff:
  assumes "r \<noteq> []" "\<not> P (hd r)" "\<not> P (last r)"
  shows "sublist r (strip_where P s) \<longleftrightarrow> sublist r s"
proof -
  have "sublist r (strip_where P s) \<longleftrightarrow> sublist (rev r) (dropWhile P (rev (dropWhile P s)))"
    unfolding strip_where_def by (simp add: sublist_rev_right)
  also have "\<dots> \<longleftrightarrow> sublist (rev r) (rev (dropWhile P s))"
    using assms by (intro sublist_dropWhile_iff) (auto simp: hd_rev)
  also have "\<dots> \<longleftrightarrow> sublist r (dropWhile P s)"
    by simp
  also have "\<dots> \<longleftrightarrow> sublist r s"
    using assms by (intro sublist_dropWhile_iff)
  finally show ?thesis .
qed

lemma strip_where_ends:
  "strip_where P s = [] \<or> (\<not> P (hd (strip_where P s)) \<and> \<not> P (last (strip_where P s)))"
proof (cases "strip_where P s = []")
  case True
  then show ?thesis by simp
next
  case False
  let ?d = "dropWhile P s" and ?e = "dropWhile P (rev (dropWhile P s))"
  have e: "?e \<noteq> []" using False by (simp add: strip_where_def)
  have d: "?d \<noteq> []"
  proof
    assume a: "?d = []"
    have "?e = []" unfolding a by simp
    with e show False by simp
  qed
  have "\<not> P (hd ?e)" using e hd_dropWhile by blast
  then have l: "\<not> P (last (strip_where P s))"
    using e by (simp add: strip_where_def last_rev)
  have "\<not> P (hd ?d)" using d hd_dropWhile by blast
  moreover have "hd (strip_where P s) = hd ?d"
  proof -
    have "hd (strip_where P s) = last ?e" using e by (simp add: strip_where_def hd_rev)
    also have "\<dots> = last (rev ?d)"
      using e by (metis append_Nil2 last_appendR takeWhile_dropWhile_id)
    also have "\<dots> = hd ?d" using d by (simp add: last_rev)
    finally show ?thesis .
  qed
  ultimately show ?thesis using l by simp
qed

lemma strip_where_idem: "strip_where P (strip_where P s) = strip_where P s"
  using strip_where_ends [of P s] strip_where_id [of "strip_where P s" P] by blast

lemma split_char_ne: "split_char sep s \<noteq> []"
  by (induction s) (auto split: list.splits)

lemma split_char_no_sep: "sep \<notin> set a \<Longrightarrow> split_char sep a = [a]"
  by (induction a) auto

lemma split_char_append:
  "split_char sep (a @ sep # b) = split_char sep a @ split_char sep b"
proof (induction a)
  case Nil
  then show ?case by simp
next
  case (Cons c a)
  then show ?case
    using split_char_ne [of sep a] by (cases "split_char sep a") auto
qed

lemma last_split_char:
  "sep \<notin> set name \<Longrightarrow> last (split_char sep (pre @ sep # name)) = name"
  by (simp add: split_char_append split_char_ne split_char_no_sep)

lemma py_replace_id:
  "old \<noteq> [] \<Longrightarrow> \<not> sublist old s \<Longrightarrow> py_replace old new s = s"
proof (induction s)
  case Nil
  then show ?case by simp
next
  case (Cons c s)
  then show ?case by (auto simp: sublist_Cons_right)
qed

lemma strip_id: "s = [] \<or> (\<not> isspace (hd s) \<and> \<not> isspace (last s)) \<Longrightarrow> strip s = s"
  unfolding strip_def by (rule strip_where_id)

lemma py_Cons: "py (c # cs) = of_char c # py cs"
  by (simp add: py_def)

lemma py_Nil: "py [] = []"
  by (simp add: py_def)

lemma py_slash: "py ''/'' = [slash]"
  by (simp add: py_def slash_def)

lemma sublist_literals:
  "sublist (py ''u/'') (py ''/u/'')"
  "sublist (py ''u/'') (py ''reddit.com/u/'')"
  "sublist (py ''reddit.com'') (py ''reddit.com/user/'')"
  by (simp_all add: py_Cons py_Nil sublist_Cons_right)

lemma sublist_trans': "sublist a b \<Longrightarrow> sublist b c \<Longrightarrow> sublist a c"
  using sublist_order.order_trans by blast

lemma no_recognized_prefix:
  assumes "\<not> sublist (py ''u/'') u" and "\<not> sublist (py ''reddit.com'') u"
  shows "\<not> recognized_prefix u"
proof
  assume "recognized_prefix u"
  then consider "prefix (py ''u/'') u" | "prefix (py ''/u/'') u"
    | "prefix (py ''reddit.com/u/'') u" | "prefix (py ''reddit.com/user/'') u"
    unfolding recognized_prefix_def by blast
  then have "sublist (py ''u/'') u \<or> sublist (py ''reddit.com'') u"
  proof cases
    case 1
    then show ?thesis by (simp add: prefix_imp_sublist)
  next
    case 2
    then show ?thesis
      using sublist_literals(1) prefix_imp_sublist sublist_trans' by blast
  next
    case 3
    then show ?thesis
      using sublist_literals(2) prefix_imp_sublist sublist_trans' by blast
  next
    case 4
    then show ?thesis
      using sublist_literals(3) prefix_imp_sublist sublist_trans' by blast
  qed
  with assms show False by simp
qed

lemma extract_prefixed:
  "recognized_prefix (strip url) \<Longrightarrow>
   extract_username_from_url up url = Inr (last (split_char slash (strip url)))"
  by (auto simp: extract_username_from_url_def recognized_prefix_def Let_def)

lemma extract_bare:
  assumes "\<not> sublist (py ''reddit.com'') s" and "\<not> sublist (py ''u/'') s"
  shows "extract_username_from_url up s = Inr (strip s)"
proof -
  let ?u = "strip s"
  have sub: "sublist ?u s"
    unfolding strip_def by (rule sublist_strip_where)
  have r: "\<not> sublist (py ''reddit.com'') ?u" and u: "\<not> sublist (py ''u/'') ?u"
    using assms sub sublist_trans' by blast+
  have u2: "\<not> sublist (py ''/u/'') ?u"
    using u sublist_literals(1) sublist_trans' by blast
  have np: "\<not> recognized_prefix ?u"
    using u r by (rule no_recognized_prefix)
  have ne: "py ''u/'' \<noteq> []" "py ''/u/'' \<noteq> []"
    by (simp_all add: py_Cons)
  have "py_replace (py ''/u/'') [] (py_replace (py ''u/'') [] ?u) = ?u"
    using ne u u2 by (simp add: py_replace_id)
  with np r show ?thesis
    by (simp add: extract_username_from_url_def recognized_prefix_def Let_def)
qed

lemma slash_not_space: "\<not> isspace slash"
  by (simp add: isspace_def slash_def)

lemma extract_after_slash:
  assumes "slash \<notin> set name" and "name = [] \<or> \<not> isspace (last name)"
    and "\<not> isspace (hd (q @ [slash]))" and "recognized_prefix (q @ slash # name)"
  shows "extract_username_from_url up (q @ slash # name) = Inr name"
proof -
  let ?s = "q @ slash # name"
  have "hd ?s = hd (q @ [slash])" by (cases q) auto
  moreover have "\<not> isspace (last ?s)"
    using assms(2) slash_not_space by auto
  ultimately have "strip ?s = ?s"
    using assms(3) by (intro strip_id) simp
  then show ?thesis
    using assms(1,4) extract_prefixed [of ?s up] by (simp add: last_split_char)
qed

lemma extract_shapes:
  assumes "slash \<notin> set name" and "name = [] \<or> \<not> isspace (last name)"
  shows "extract_username_from_url up (py ''u/'' @ name) = Inr name"
    and "extract_username_from_url up (py ''/u/'' @ name) = Inr name"
    and "extract_username_from_url up (py ''reddit.com/u/'' @ name) = Inr name"
    and "extract_username_from_url up (py ''reddit.com/user/'' @ name) = Inr name"
proof -
  show "extract_username_from_url up (py ''u/'' @ name) = Inr name"
    using extract_after_slash [OF assms, of "py ''u''" up]
    by (simp add: py_Cons py_Nil slash_def isspace_def recognized_prefix_def)
  show "extract_username_from_url up (py ''/u/'' @ name) = Inr name"
    using extract_after_slash [OF assms, of "py ''/u''" up]
    by (simp add: py_Cons py_Nil slash_def isspace_def recognized_prefix_def)
  show "extract_username_from_url up (py ''reddit.com/u/'' @ name) = Inr name"
    using extract_after_slash [OF assms, of "py ''reddit.com/u''" up]
    by (simp add: py_Cons py_Nil slash_def isspace_def recognized_prefix_def)
  show "extract_username_from_url up (py ''reddit.com/user/'' @ name) = Inr name"
    using extract_after_slash [OF assms, of "py ''reddit.com/user''" up]
    by (simp add: py_Cons py_Nil slash_def isspace_def recognized_prefix_def)
qed

lemma dropWhile_append_keep:
  "ys \<noteq> [] \<Longrightarrow> \<not> P (hd ys) \<Longrightarrow> dropWhile P (xs @ ys) = dropWhile P xs @ ys"
  by (induction xs) (auto simp: dropWhile_eq_self_iff)

lemma strip_where_path:
  assumes "seg \<noteq> []" "\<not> P (hd seg)" "name \<noteq> []" "\<not> P (last name)" "P sep"
  shows "strip_where P (sep # seg @ sep # name @ tail)
           = seg @ sep # name @ rev (dropWhile P (rev tail))"
proof -
  have "dropWhile P (sep # seg @ sep # name @ tail) = seg @ sep # name @ tail"
    using assms by (cases seg) auto
  moreover have "dropWhile P (rev tail @ (rev name @ sep # rev seg))
                   = dropWhile P (rev tail) @ (rev name @ sep # rev seg)"
    using assms by (intro dropWhile_append_keep) (auto simp: hd_append hd_rev)
  ultimately show ?thesis
    by (simp add: strip_where_def)
qed

lemma rev_dropWhile_rev_prefix: "prefix (rev (dropWhile P (rev xs))) xs"
  by (metis prefix_def rev_append rev_rev_ident takeWhile_dropWhile_id)

lemma path_segments_profile:
  assumes "seg = py ''user'' \<or> seg = py ''u''" and "name \<noteq> []" and "slash \<notin> set name"
    and "tail = [] \<or> prefix [slash] tail"
  shows "\<exists>rest. path_segments (slash # seg @ slash # name @ tail) = seg # name # rest"
proof -
  let ?P = "\<lambda>c. c \<in> set (py ''/'')"
  define t where "t = rev (dropWhile ?P (rev tail))"
  have seg: "seg \<noteq> []" "\<not> ?P (hd seg)" "slash \<notin> set seg"
    using assms(1) by (auto simp: py_Cons py_Nil slash_def)
  have "last name \<in> set name"
    using assms(2) by simp
  then have "last name \<noteq> slash"
    using assms(3) by metis
  then have name: "\<not> ?P (last name)"
    by (simp add: py_slash)
  have "strip_chars (py ''/'') (slash # seg @ slash # name @ tail) = seg @ slash # name @ t"
    unfolding strip_chars_def t_def using seg(1,2) assms(2) name
    by (intro strip_where_path) (simp_all add: py_slash)
  then have ps: "path_segments (slash # seg @ slash # name @ tail)
                 = seg # split_char slash (name @ t)"
    using seg(3) by (simp add: path_segments_def split_char_append split_char_no_sep)
  have pt: "prefix t tail"
    unfolding t_def by (rule rev_dropWhile_rev_prefix)
  have "\<exists>rest. split_char slash (name @ t) = name # rest"
  proof (cases t)
    case Nil
    then show ?thesis using assms(3) by (simp add: split_char_no_sep)
  next
    case (Cons c r)
    with pt assms(4) have "c = slash" by (auto simp: prefix_def)
    with Cons assms(3) show ?thesis
      by (simp add: split_char_append split_char_no_sep)
  qed
  with ps show ?thesis by auto
qed

lemma profile_path_code:
  "profile_path p \<longleftrightarrow>
     (let path_parts = split_char slash (strip_chars (py ''/'') p)
      in length path_parts \<ge> 2 \<and> path_parts ! 0 \<in> set [py ''user'', py ''u''])"
  by (auto simp: profile_path_def path_segments_def Let_def split: list.splits)

lemma extract_parsed:
  assumes "\<not> recognized_prefix (strip url)" and "sublist (py ''reddit.com'') (strip url)"
  shows "extract_username_from_url up url =
           (case up (strip url) of
              Inl e \<Rightarrow> Inl e
            | Inr p \<Rightarrow> if profile_path p then Inr (path_segments p ! 1) else Inl invalid_input)"
  using assms
  by (auto simp: extract_username_from_url_def recognized_prefix_def profile_path_code Let_def
      path_segments_def invalid_input_def split: sum.splits)

lemma extract_full_url:
  assumes "\<not> recognized_prefix (strip url)" and "sublist (py ''reddit.com'') (strip url)"
    and "up (strip url) = Inr (slash # seg @ slash # name @ tail)"
    and "seg = py ''user'' \<or> seg = py ''u''" and "name \<noteq> []" and "slash \<notin> set name"
    and "tail = [] \<or> prefix [slash] tail"
  shows "extract_username_from_url up url = Inr name"
proof -
  obtain rest where "path_segments (slash # seg @ slash # name @ tail) = seg # name # rest"
    using path_segments_profile [OF assms(4-7)] by blast
  then show ?thesis
    using assms(3,4) extract_parsed [OF assms(1,2), of up]
    by (auto simp: profile_path_def)
qed

lemma extract_else:
  assumes "\<not> recognized_prefix (strip url)" and "\<not> sublist (py ''reddit.com'') (strip url)"
  shows "extract_username_from_url up url =
           Inr (py_replace (py ''/u/'') [] (py_replace (py ''u/'') [] (strip url)))"
  using assms by (auto simp: extract_username_from_url_def recognized_prefix_def Let_def)

lemma contains_host_strip:
  "sublist (py ''reddit.com'') (strip url) \<longleftrightarrow> sublist (py ''reddit.com'') url"
  unfolding strip_def
  by (rule strip_where_sublist_iff) (simp_all add: py_Cons py_Nil isspace_def)

text \<open>Unfolding rules that evaluate the normalizer on concrete strings.\<close>

lemmas norm_eval =
  extract_username_from_url_def py_def strip_def strip_where_def strip_chars_def isspace_def
  slash_def Let_def sublist_Cons_right recognized_prefix_def profile_path_def path_segments_def
  urlparse_path_table_def invalid_input_def

text \<open>
  C9. For an input \<open>reddit.com/user/<name>/\<close> or \<open>reddit.com/u/<name>/\<close>, without
  scheme and with a trailing slash, the function returns the empty string, whatever the
  name is and whatever \<open>urlparse\<close> does: the second branch returns the field after the
  last slash.
\<close>

theorem trailing_slash_gives_empty:
  "extract_username_from_url up (py ''reddit.com/user/'' @ name @ py ''/'') = Inr []
   \<and> extract_username_from_url up (py ''reddit.com/u/'' @ name @ py ''/'') = Inr []"
proof -
  have "extract_username_from_url up ((py ''reddit.com/user/'' @ name) @ slash # []) = Inr []"
    by (rule extract_after_slash)
      (simp_all add: py_Cons py_Nil isspace_def recognized_prefix_def hd_append)
  moreover
  have "extract_username_from_url up ((py ''reddit.com/u/'' @ name) @ slash # []) = Inr []"
    by (rule extract_after_slash)
      (simp_all add: py_Cons py_Nil isspace_def recognized_prefix_def hd_append)
  ultimately show ?thesis
    by (simp add: py_slash)
qed

theorem trailing_slash_gives_empty_witness:
  "extract_username_from_url urlparse_path_table (py ''reddit.com/user/alice/'') = Inr []
   \<and> extract_username_from_url urlparse_path_table (py ''reddit.com/u/alice/'') = Inr []"
  using trailing_slash_gives_empty [of urlparse_path_table "py ''alice''"]
  by (simp add: py_def)

text \<open>
  C7, as stated, fails on the input \<open>" reddit.com/u/"\<close> (one leading space): it contains
  \<open>reddit.com\<close>, it does not start with a recognized prefix, and the path that
  \<open>urlparse\<close> gives for it does not begin with a \<open>user\<close> or \<open>u\<close> segment; yet the
  function strips the space first, takes the second branch and returns the empty string.
\<close>

theorem leading_space_prefix_counterexample:
  "extract_username_from_url urlparse_path_table (py '' reddit.com/u/'') = Inr []
   \<and> sublist (py ''reddit.com'') (py '' reddit.com/u/'')
   \<and> \<not> recognized_prefix (py '' reddit.com/u/'')
   \<and> urlparse_path_table (py '' reddit.com/u/'') = Inr (py ''reddit.com/u/'')
   \<and> \<not> profile_path (py ''reddit.com/u/'')"
  by (simp add: norm_eval)

text \<open>
  C7, amended. The prefix test and the parse apply to the input with its surrounding
  whitespace stripped. The function raises \<open>ValueError('Invalid Reddit profile URL format')\<close>
  if and only if the stripped input contains \<open>reddit.com\<close>, starts with none of the
  four recognized prefixes, and \<open>urlparse\<close> returns a path that does not begin with a
  \<open>user\<close> or \<open>u\<close> segment followed by a second segment (or \<open>urlparse\<close> itself raises
  that very error). It raises at all if and only if the first two conditions hold and
  \<open>urlparse\<close> raises or returns such a path; an exception of \<open>urlparse\<close> itself
  propagates unchanged, and a path that does begin with such segments gives its second
  segment. Stripping does not change whether the input contains \<open>reddit.com\<close>, and
  every input that does not contain it returns a string.
\<close>

theorem invalid_input_iff:
  "(extract_username_from_url up url = Inl invalid_input \<longleftrightarrow>
      sublist (py ''reddit.com'') (strip url) \<and> \<not> recognized_prefix (strip url)
      \<and> (case up (strip url) of Inl e \<Rightarrow> e = invalid_input | Inr p \<Rightarrow> \<not> profile_path p))
   \<and> (isl (extract_username_from_url up url) \<longleftrightarrow>
      sublist (py ''reddit.com'') (strip url) \<and> \<not> recognized_prefix (strip url)
      \<and> (case up (strip url) of Inl e \<Rightarrow> True | Inr p \<Rightarrow> \<not> profile_path p))
   \<and> (sublist (py ''reddit.com'') (strip url) \<and> \<not> recognized_prefix (strip url) \<longrightarrow>
        extract_username_from_url up url =
          (case up (strip url) of
             Inl e \<Rightarrow> Inl e
           | Inr p \<Rightarrow> if profile_path p then Inr (path_segments p ! 1) else Inl invalid_input))
   \<and> (sublist (py ''reddit.com'') (strip url) \<longleftrightarrow> sublist (py ''reddit.com'') url)
   \<and> (\<not> sublist (py ''reddit.com'') url \<longrightarrow> (\<exists>name. extract_username_from_url up url = Inr name))"
proof (cases "recognized_prefix (strip url)")
  case True
  then show ?thesis
    by (simp add: extract_prefixed contains_host_strip)
next
  case np: False
  show ?thesis
  proof (cases "sublist (py ''reddit.com'') (strip url)")
    case True
    with np show ?thesis
      using extract_parsed [OF np True, of up] contains_host_strip [of url]
      by (auto split: sum.splits)
  next
    case False
    with np show ?thesis
      using extract_else [OF np False, of up] contains_host_strip [of url]
      by simp
  qed
qed

theorem invalid_input_iff_witness:
  "extract_username_from_url urlparse_path_table (py ''www.reddit.com/user/alice'') = Inl invalid_input
   \<and> isl (extract_username_from_url urlparse_path_table (py ''www.reddit.com/user/alice''))
   \<and> sublist (py ''reddit.com'') (strip (py ''www.reddit.com/user/alice''))
   \<and> \<not> recognized_prefix (strip (py ''www.reddit.com/user/alice''))
   \<and> urlparse_path_table (strip (py ''www.reddit.com/user/alice'')) = Inr (py ''www.reddit.com/user/alice'')
   \<and> \<not> profile_path (py ''www.reddit.com/user/alice'')
   \<and> \<not> sublist (py ''reddit.com'') (py ''alice'')
   \<and> (\<exists>name. extract_username_from_url urlparse_path_table (py ''alice'') = Inr name)
   \<and> sublist (py ''reddit.com'') (strip (py ''http://[reddit.com/user/x''))
   \<and> \<not> recognized_prefix (strip (py ''http://[reddit.com/user/x''))
   \<and> urlparse_path_table (strip (py ''http://[reddit.com/user/x''))
       = Inl (ValueError (py ''Invalid IPv6 URL''))
   \<and> extract_username_from_url urlparse_path_table (py ''http://[reddit.com/user/x'')
       = Inl (ValueError (py ''Invalid IPv6 URL''))"
proof -
  let ?url = "py ''www.reddit.com/user/alice''"
  let ?bad = "py ''http://[reddit.com/user/x''"
  have f: "sublist (py ''reddit.com'') (strip ?bad)"
    by (simp add: norm_eval)
  have g: "\<not> recognized_prefix (strip ?bad)"
    by (simp add: norm_eval)
  have h: "urlparse_path_table (strip ?bad) = Inl (ValueError (py ''Invalid IPv6 URL''))"
    by (simp add: norm_eval)
  have i: "extract_username_from_url urlparse_path_table ?bad
       = Inl (ValueError (py ''Invalid IPv6 URL''))"
    using f g h invalid_input_iff [of urlparse_path_table ?bad] by simp
  have a: "sublist (py ''reddit.com'') (strip ?url)"
    by (simp add: norm_eval)
  have b: "\<not> recognized_prefix (strip ?url)"
    by (simp add: norm_eval)
  have c: "urlparse_path_table (strip ?url) = Inr ?url"
    by (simp add: norm_eval)
  have d: "\<not> profile_path ?url"
    by (simp add: norm_eval)
  have e: "\<not> sublist (py ''reddit.com'') (py ''alice'')"
    by (simp add: norm_eval)
  have "extract_username_from_url urlparse_path_table ?url = Inl invalid_input
        \<and> isl (extract_username_from_url urlparse_path_table ?url)"
    using a b c d invalid_input_iff [of urlparse_path_table ?url] by simp
  moreover have "\<exists>name. extract_username_from_url urlparse_path_table (py ''alice'') = Inr name"
    using e invalid_input_iff [of urlparse_path_table "py ''alice''"] by blast
  ultimately show ?thesis
    using a b c d e f g h i by blast
qed

text \<open>
  C2, as stated, fails. The string \<open>au/b\<close> contains no \<open>reddit.com\<close> and starts with
  neither \<open>u/\<close> nor \<open>/u/\<close>, yet the last branch removes the inner \<open>u/\<close> and returns
  \<open>ab\<close>; \<open>"alice "\<close> loses its trailing space; and for the name \<open>a/b\<close> the shape
  \<open>u/<name>\<close> gives \<open>b\<close>.
\<close>

theorem bare_username_counterexample:
  "\<not> sublist (py ''reddit.com'') (py ''au/b'')
   \<and> \<not> prefix (py ''u/'') (py ''au/b'') \<and> \<not> prefix (py ''/u/'') (py ''au/b'')
   \<and> extract_username_from_url urlparse_path_table (py ''au/b'') = Inr (py ''ab'')
   \<and> py ''ab'' \<noteq> py ''au/b''
   \<and> extract_username_from_url urlparse_path_table (py ''alice '') = Inr (py ''alice'')
   \<and> py ''alice'' \<noteq> py ''alice ''
   \<and> extract_username_from_url urlparse_path_table (py ''u/'' @ py ''a/b'') = Inr (py ''b'')
   \<and> py ''b'' \<noteq> py ''a/b''"
  by (simp add: norm_eval)

text \<open>
  C2, amended. A string that contains neither \<open>reddit.com\<close> nor \<open>u/\<close> is returned with
  its surrounding whitespace stripped, and normalizing the result again returns it
  unchanged; such a string without surrounding whitespace is returned unchanged. For
  every name without a slash that does not end in whitespace, the four shapes
  \<open>u/<name>\<close>, \<open>/u/<name>\<close>, \<open>reddit.com/u/<name>\<close> and \<open>reddit.com/user/<name>\<close> all
  give the name. For a URL that contains \<open>reddit.com\<close>, starts with none of the four
  prefixes and for which \<open>urlparse\<close> returns the path \<open>/user/<name>\<close> or
  \<open>/u/<name>\<close>, possibly followed by \<open>/...\<close>, with a non-empty name without slash, the
  result is the name.
\<close>

theorem username_normalization:
  fixes up :: "pystr \<Rightarrow> error + pystr" and s name url seg tail :: pystr
  shows
  "(\<not> sublist (py ''reddit.com'') s \<and> \<not> sublist (py ''u/'') s \<longrightarrow>
      extract_username_from_url up s = Inr (strip s)
      \<and> extract_username_from_url up (strip s) = Inr (strip s)
      \<and> (s = [] \<or> (\<not> isspace (hd s) \<and> \<not> isspace (last s)) \<longrightarrow>
           extract_username_from_url up s = Inr s))
   \<and> (slash \<notin> set name \<and> (name = [] \<or> \<not> isspace (last name)) \<longrightarrow>
      extract_username_from_url up (py ''u/'' @ name) = Inr name
      \<and> extract_username_from_url up (py ''/u/'' @ name) = Inr name
      \<and> extract_username_from_url up (py ''reddit.com/u/'' @ name) = Inr name
      \<and> extract_username_from_url up (py ''reddit.com/user/'' @ name) = Inr name)
   \<and> (sublist (py ''reddit.com'') (strip url) \<and> \<not> recognized_prefix (strip url)
      \<and> up (strip url) = Inr (slash # seg @ slash # name @ tail)
      \<and> (seg = py ''user'' \<or> seg = py ''u'') \<and> name \<noteq> [] \<and> slash \<notin> set name
      \<and> (tail = [] \<or> prefix [slash] tail) \<longrightarrow>
      extract_username_from_url up url = Inr name)"
proof (intro conjI impI)
  assume a: "\<not> sublist (py ''reddit.com'') s \<and> \<not> sublist (py ''u/'') s"
  then show b: "extract_username_from_url up s = Inr (strip s)"
    by (simp add: extract_bare)
  have sub: "sublist (strip s) s"
    unfolding strip_def by (rule sublist_strip_where)
  have "\<not> sublist (py ''reddit.com'') (strip s)" "\<not> sublist (py ''u/'') (strip s)"
    using a sub sublist_trans' by blast+
  then have "extract_username_from_url up (strip s) = Inr (strip (strip s))"
    by (rule extract_bare)
  then show "extract_username_from_url up (strip s) = Inr (strip s)"
    by (simp add: strip_def strip_where_idem)
  assume "s = [] \<or> (\<not> isspace (hd s) \<and> \<not> isspace (last s))"
  then show "extract_username_from_url up s = Inr s"
    using b by (simp add: strip_id)
next
  assume a: "slash \<notin> set name \<and> (name = [] \<or> \<not> isspace (last name))"
  then show "extract_username_from_url up (py ''u/'' @ name) = Inr name"
    by (simp add: extract_shapes(1))
  from a show "extract_username_from_url up (py ''/u/'' @ name) = Inr name"
    by (simp add: extract_shapes(2))
  from a show "extract_username_from_url up (py ''reddit.com/u/'' @ name) = Inr name"
    by (simp add: extract_shapes(3))
  from a show "extract_username_from_url up (py ''reddit.com/user/'' @ name) = Inr name"
    by (simp add: extract_shapes(4))
next
  assume "sublist (py ''reddit.com'') (strip url) \<and> \<not> recognized_prefix (strip url)
      \<and> up (strip url) = Inr (slash # seg @ slash # name @ tail)
      \<and> (seg = py ''user'' \<or> seg = py ''u'') \<and> name \<noteq> [] \<and> slash \<notin> set name
      \<and> (tail = [] \<or> prefix [slash] tail)"
  then show "extract_username_from_url up url = Inr name"
    using extract_full_url [of url up seg name tail] by blast
qed

theorem username_normalization_witness:
  "\<not> sublist (py ''reddit.com'') (py ''alice'') \<and> \<not> sublist (py ''u/'') (py ''alice'')
   \<and> \<not> isspace (hd (py ''alice'')) \<and> \<not> isspace (last (py ''alice''))
   \<and> slash \<notin> set (py ''alice'')
   \<and> extract_username_from_url urlparse_path_table (py ''alice'') = Inr (py ''alice'')
   \<and> extract_username_from_url urlparse_path_table (py ''u/'' @ py ''alice'') = Inr (py ''alice'')
   \<and> extract_username_from_url urlparse_path_table (py ''/u/'' @ py ''alice'') = Inr (py ''alice'')
   \<and> extract_username_from_url urlparse_path_table (py ''reddit.com/u/'' @ py ''alice'') = Inr (py ''alice'')
   \<and> extract_username_from_url urlparse_path_table (py ''reddit.com/user/'' @ py ''alice'') = Inr (py ''alice'')
   \<and> sublist (py ''reddit.com'') (strip (py ''https://www.reddit.com/user/kojied/''))
   \<and> \<not> recognized_prefix (strip (py ''https://www.reddit.com/user/kojied/''))
   \<and> urlparse_path_table (strip (py ''https://www.reddit.com/user/kojied/''))
       = Inr (slash # py ''user'' @ slash # py ''kojied'' @ [slash])
   \<and> slash \<notin> set (py ''kojied'')
   \<and> extract_username_from_url urlparse_path_table (py ''https://www.reddit.com/user/kojied/'')
       = Inr (py ''kojied'')"
proof -
  let ?url = "py ''https://www.reddit.com/user/kojied/''"
  have a: "\<not> sublist (py ''reddit.com'') (py ''alice'')" "\<not> sublist (py ''u/'') (py ''alice'')"
    "\<not> isspace (hd (py ''alice''))" "\<not> isspace (last (py ''alice''))"
    "slash \<notin> set (py ''alice'')"
    by (simp_all add: norm_eval)
  have b: "sublist (py ''reddit.com'') (strip ?url)" "\<not> recognized_prefix (strip ?url)"
    "urlparse_path_table (strip ?url) = Inr (slash # py ''user'' @ slash # py ''kojied'' @ [slash])"
    "slash \<notin> set (py ''kojied'')" "py ''kojied'' \<noteq> []"
    by (simp_all add: norm_eval)
  note t1 = username_normalization [where up = urlparse_path_table and s = "py ''alice''"
      and name = "py ''alice''"]
  note t2 = username_normalization [where up = urlparse_path_table and url = ?url
      and seg = "py ''user''" and name = "py ''kojied''" and tail = "[slash]"]
  have "extract_username_from_url urlparse_path_table (py ''alice'') = Inr (py ''alice'')"
    using a t1 by blast
  moreover have "extract_username_from_url urlparse_path_table (py ''u/'' @ py ''alice'') = Inr (py ''alice'')"
    "extract_username_from_url urlparse_path_table (py ''/u/'' @ py ''alice'') = Inr (py ''alice'')"
    "extract_username_from_url urlparse_path_table (py ''reddit.com/u/'' @ py ''alice'') = Inr (py ''alice'')"
    "extract_username_from_url urlparse_path_table (py ''reddit.com/user/'' @ py ''alice'') = Inr (py ''alice'')"
    using a t1 by blast+
  moreover have "extract_username_from_url urlparse_path_table ?url = Inr (py ''kojied'')"
    using b t2 by blast
  ultimately show ?thesis
    using a b by blast
qed

section \<open>Properties of the text analyzer and of the LLM client\<close>

lemma length_top_words: "length (top_words (topics_of_words ws)) \<le> 20"
  by (simp add: topics_of_words_def sorted_by_count_desc_def Let_def)

lemma topics_of_no_words: "topics_of_words [] = topics_default"
  by (simp add: topics_of_words_def sorted_by_count_desc_def topics_default_def)

lemma extract_topics_cases:
  "extract_topics_and_interests lib texts =
     (case lib_stopwords lib of
        Inl e \<Rightarrow> Inr topics_default
      | Inr stop_words \<Rightarrow>
          (case lib_word_tokenize lib (lib_lower lib (join (py '' '') texts)) of
             Inl e \<Rightarrow> Inr topics_default
           | Inr toks \<Rightarrow> Inr (topics_of_words (keep_words lib stop_words toks))))"
  by (simp add: extract_topics_and_interests_def extract_topics_body_def try_except_def Let_def
      split: sum.splits)

text \<open>Unfolding rules that evaluate the activity analysis on concrete data.\<close>

lemmas analyzer_eval =
  analyze_user_activity_patterns_def try_except_def analyze_body_def average_gap_def
  time_diffs_of_def int_arith_def overflowing_arith_def mock_data_def get_posts_def
  get_comments_def sorted_by_count_desc_def dict_get_def Let_def py_def

text \<open>
  C5. Whatever the library functions and the arithmetic do and whatever the texts and
  the collected data are, the analyzer returns at most 20 top words and at most 10 top
  subreddits: the activity analysis returns either the empty dict, where the callers read
  an empty list, or a dict whose top-subreddits list has at most 10 entries.
\<close>

theorem analyzer_bounds:
  "(\<exists>r. extract_topics_and_interests lib texts = Inr r \<and> length (top_words r) \<le> 20)
   \<and> (analyze_user_activity_patterns ar d = Inr None
      \<or> (\<exists>a. analyze_user_activity_patterns ar d = Inr (Some a)
              \<and> length (top_subreddits a) \<le> 10))
   \<and> (\<exists>r. analyze_user_activity_patterns ar d = Inr r \<and> length (get_top_subreddits r) \<le> 10)"
proof -
  have "\<exists>r. extract_topics_and_interests lib texts = Inr r \<and> length (top_words r) \<le> 20"
    unfolding extract_topics_cases
    by (auto simp: length_top_words topics_default_def split: sum.splits)
  moreover have "analyze_user_activity_patterns ar d = Inr None
      \<or> (\<exists>a. analyze_user_activity_patterns ar d = Inr (Some a)
              \<and> length (top_subreddits a) \<le> 10)"
    by (auto simp: analyze_user_activity_patterns_def try_except_def analyze_body_def Let_def
        sorted_by_count_desc_def split: sum.splits)
  moreover from this
  have "\<exists>r. analyze_user_activity_patterns ar d = Inr r \<and> length (get_top_subreddits r) \<le> 10"
    by (auto simp: get_top_subreddits_def)
  ultimately show ?thesis by blast
qed

theorem analyzer_bounds_witness:
  "(\<exists>r. extract_topics_and_interests simple_lib test_texts = Inr r \<and> length (top_words r) \<le> 20)
   \<and> (\<exists>a. analyze_user_activity_patterns int_arith mock_data = Inr (Some a)
            \<and> length (top_subreddits a) = 3 \<and> length (top_subreddits a) \<le> 10)
   \<and> analyze_user_activity_patterns overflowing_arith mock_data = Inr None
   \<and> length (get_top_subreddits None) \<le> 10"
proof -
  have a: "\<exists>a. analyze_user_activity_patterns int_arith mock_data = Inr (Some a)
            \<and> length (top_subreddits a) = 3"
    by (simp add: analyzer_eval)
  have b: "analyze_user_activity_patterns overflowing_arith mock_data = Inr None"
    by (simp add: analyzer_eval)
  show ?thesis
    using a b analyzer_bounds [of simple_lib test_texts int_arith mock_data]
      analyzer_bounds [of simple_lib test_texts overflowing_arith mock_data]
    by auto
qed

text \<open>
  C10. \<open>extract_topics_and_interests\<close> always returns: its result is either the
  statistics computed from the tokens or the default
  \<open>{'top_words': [], 'total_words': 0, 'unique_words': 0}\<close>, never an exception. When
  the body fails the result is the default, which is also the result for a text in which
  no word is kept.
\<close>

theorem extract_topics_total:
  "(\<exists>r. extract_topics_and_interests lib texts = Inr r)
   \<and> (extract_topics_and_interests lib texts = Inr topics_default
      \<or> (\<exists>stop_words toks.
            lib_stopwords lib = Inr stop_words
            \<and> lib_word_tokenize lib (lib_lower lib (join (py '' '') texts)) = Inr toks
            \<and> extract_topics_and_interests lib texts
                = Inr (topics_of_words (keep_words lib stop_words toks))))
   \<and> (isl (extract_topics_body lib texts) \<longrightarrow>
        extract_topics_and_interests lib texts = Inr topics_default)
   \<and> topics_of_words [] = topics_default"
proof -
  have "isl (extract_topics_body lib texts) \<longrightarrow>
        extract_topics_and_interests lib texts = Inr topics_default"
    by (auto simp: extract_topics_and_interests_def try_except_def isl_def)
  then show ?thesis
    unfolding extract_topics_cases
    by (auto simp: topics_of_no_words split: sum.splits)
qed

theorem extract_topics_total_witness:
  "isl (extract_topics_body missing_data_lib test_texts)
   \<and> extract_topics_and_interests missing_data_lib test_texts = Inr topics_default
   \<and> (\<exists>r. extract_topics_and_interests simple_lib test_texts = Inr r)"
proof -
  have a: "isl (extract_topics_body missing_data_lib test_texts)"
    by (simp add: extract_topics_body_def missing_data_lib_def simple_lib_def)
  show ?thesis
    using a extract_topics_total [of missing_data_lib test_texts]
      extract_topics_total [of simple_lib test_texts]
    by blast
qed

text \<open>
  C6. On the empty list of texts, with a library for which lower-casing the empty string
  gives the empty string and the tokenizer, if it does not raise on it, finds no token,
  and with no collected post or comment, the analyzer returns zero counts and empty lists
  and does not raise, whatever the arithmetic is.
\<close>

theorem empty_input_analysis:
  assumes "lib_lower lib [] = []"
    and "isl (lib_word_tokenize lib []) \<or> lib_word_tokenize lib [] = Inr []"
    and "get_posts d = []" and "get_comments d = []"
  shows "extract_topics_and_interests lib [] =
           Inr \<lparr>top_words = [], total_words = 0, unique_words = 0\<rparr>
       \<and> analyze_user_activity_patterns ar d =
           Inr (Some \<lparr>avg_time_between_posts = PyInt 0, top_subreddits = [],
                      total_subreddits = 0, post_count = 0, comment_count = 0\<rparr>)"
proof -
  have "extract_topics_and_interests lib [] = Inr topics_default"
    unfolding extract_topics_cases using assms(1,2)
    by (auto simp: topics_of_no_words keep_words_def isl_def split: sum.splits)
  moreover have "analyze_user_activity_patterns ar d =
           Inr (Some \<lparr>avg_time_between_posts = PyInt 0, top_subreddits = [],
                      total_subreddits = 0, post_count = 0, comment_count = 0\<rparr>)"
    using assms(3,4)
    by (simp add: analyze_user_activity_patterns_def try_except_def analyze_body_def
        average_gap_def sorted_by_count_desc_def)
  ultimately show ?thesis
    by (simp add: topics_default_def)
qed

theorem empty_input_analysis_witness:
  "lib_lower simple_lib [] = []
   \<and> lib_word_tokenize simple_lib [] = Inr []
   \<and> get_posts \<lparr>ud_posts = Some [], ud_comments = Some []\<rparr> = []
   \<and> get_comments \<lparr>ud_posts = Some [], ud_comments = Some []\<rparr> = []
   \<and> extract_topics_and_interests simple_lib [] =
           Inr \<lparr>top_words = [], total_words = 0, unique_words = 0\<rparr>
   \<and> analyze_user_activity_patterns int_arith \<lparr>ud_posts = Some [], ud_comments = Some []\<rparr> =
           Inr (Some \<lparr>avg_time_between_posts = PyInt 0, top_subreddits = [],
                      total_subreddits = 0, post_count = 0, comment_count = 0\<rparr>)"
proof -
  let ?d = "\<lparr>ud_posts = Some [], ud_comments = Some []\<rparr>"
  have a: "lib_lower simple_lib [] = []" "lib_word_tokenize simple_lib [] = Inr []"
    by (simp_all add: simple_lib_def)
  have b: "get_posts ?d = []" "get_comments ?d = []"
    by (simp_all add: get_posts_def get_comments_def)
  have c: "isl (lib_word_tokenize simple_lib []) \<or> lib_word_tokenize simple_lib [] = Inr []"
    using a(2) by simp
  show ?thesis
    using a b empty_input_analysis [OF a(1) c b, of int_arith] by simp
qed

declare retry_loop.simps [simp del]

lemma retry_step:
  "attempt < max_retries \<Longrightarrow>
   retry_loop gen max_retries attempt trace =
     (if attempt_ok gen attempt then (gen attempt, trace @ [Call attempt])
      else if attempt = max_retries - 1 then
        (Inl (last_error gen attempt), trace @ [Call attempt])
      else retry_loop gen max_retries (attempt + 1) (trace @ [Call attempt, Sleep 2]))"
  by (subst retry_loop.simps)
    (auto simp: attempt_body_def attempt_ok_def last_error_def split: sum.splits)

lemma retry_three:
  "retry_loop gen 3 0 [] =
     (if attempt_ok gen 0 then (gen 0, [Call 0])
      else if attempt_ok gen 1 then (gen 1, [Call 0, Sleep 2, Call 1])
      else if attempt_ok gen 2 then (gen 2, [Call 0, Sleep 2, Call 1, Sleep 2, Call 2])
      else (Inl (last_error gen 2), [Call 0, Sleep 2, Call 1, Sleep 2, Call 2]))"
proof -
  have s0: "retry_loop gen 3 0 [] =
      (if attempt_ok gen 0 then (gen 0, [Call 0]) else retry_loop gen 3 1 [Call 0, Sleep 2])"
    by (subst retry_loop.simps)
      (auto simp: attempt_body_def attempt_ok_def last_error_def split: sum.splits)
  have s1: "retry_loop gen 3 1 [Call 0, Sleep 2] =
      (if attempt_ok gen 1 then (gen 1, [Call 0, Sleep 2, Call 1])
       else retry_loop gen 3 2 [Call 0, Sleep 2, Call 1, Sleep 2])"
    by (subst retry_loop.simps)
      (auto simp: attempt_body_def attempt_ok_def last_error_def numeral_2_eq_2
        split: sum.splits)
  have s2: "retry_loop gen 3 2 [Call 0, Sleep 2, Call 1, Sleep 2] =
      (if attempt_ok gen 2 then (gen 2, [Call 0, Sleep 2, Call 1, Sleep 2, Call 2])
       else (Inl (last_error gen 2), [Call 0, Sleep 2, Call 1, Sleep 2, Call 2]))"
    by (subst retry_loop.simps)
      (auto simp: attempt_body_def attempt_ok_def last_error_def split: sum.splits)
  show ?thesis
    unfolding s0 s1 s2 by (rule refl)
qed

text \<open>The loop in general: it stops after at most \<open>max_retries\<close> calls.\<close>

lemma calls_append: "calls (xs @ ys) = calls xs + calls ys"
  by (simp add: calls_def)

lemma retry_calls_le:
  "calls (snd (retry_loop gen max_retries attempt trace))
     \<le> calls trace + (max_retries - attempt)"
proof (induction "max_retries - attempt" arbitrary: attempt trace)
  case 0
  then show ?case
    by (subst retry_loop.simps) simp
next
  case (Suc n)
  then have lt: "attempt < max_retries" by simp
  from Suc have "n = max_retries - (attempt + 1)" by simp
  then have ih: "calls (snd (retry_loop gen max_retries (attempt + 1) (trace @ [Call attempt, Sleep 2])))
      \<le> calls (trace @ [Call attempt, Sleep 2]) + (max_retries - (attempt + 1))"
    by (rule Suc.hyps(1))
  have c: "calls (trace @ [Call attempt, Sleep 2]) = calls trace + 1"
    "calls (trace @ [Call attempt]) = calls trace + 1"
    by (simp_all add: calls_def)
  show ?case
  proof (cases "attempt_ok gen attempt \<or> attempt = max_retries - 1")
    case True
    then have "calls (snd (retry_loop gen max_retries attempt trace)) = calls trace + 1"
      using retry_step [OF lt, of gen trace] c(2) by auto
    with lt show ?thesis by simp
  next
    case False
    then have "retry_loop gen max_retries attempt trace
        = retry_loop gen max_retries (attempt + 1) (trace @ [Call attempt, Sleep 2])"
      using retry_step [OF lt, of gen trace] by simp
    with ih c(1) lt show ?thesis by simp
  qed
qed

text \<open>
  C3. The client makes at most 3 calls, with one sleep of 2 seconds between consecutive
  calls and none after the last. The first attempt that gives a non-empty text ends the
  loop with that text: success at the second attempt means exactly 2 calls. When all
  three attempts give an empty response or an error, the loop raises after the third
  call: the error of the third call, or the empty-response \<open>ValueError\<close>.
  \<open>generate_persona_with_llm\<close> makes exactly the calls and sleeps of the loop and returns
  the loop's text, with the citations, or raises the loop's error.
\<close>

theorem llm_retry_bound:
  "retry_loop gen 3 0 [] =
     (if attempt_ok gen 0 then (gen 0, [Call 0])
      else if attempt_ok gen 1 then (gen 1, [Call 0, Sleep 2, Call 1])
      else if attempt_ok gen 2 then (gen 2, [Call 0, Sleep 2, Call 1, Sleep 2, Call 2])
      else (Inl (last_error gen 2), [Call 0, Sleep 2, Call 1, Sleep 2, Call 2]))
   \<and> calls (snd (retry_loop gen 3 0 [])) \<le> 3
   \<and> snd (generate_persona_with_llm gen d) = snd (retry_loop gen 3 0 [])
   \<and> map_sum id fst (fst (generate_persona_with_llm gen d)) = fst (retry_loop gen 3 0 [])
   \<and> map_sum id snd (fst (generate_persona_with_llm gen d))
       = map_sum id (\<lambda>persona_text. generate_citations d) (fst (retry_loop gen 3 0 []))"
proof -
  have "calls (snd (retry_loop gen 3 0 [])) \<le> 3"
    using retry_calls_le [of gen 3 0 "[]"] by (simp add: calls_def)
  moreover have "snd (generate_persona_with_llm gen d) = snd (retry_loop gen 3 0 [])"
    "map_sum id fst (fst (generate_persona_with_llm gen d)) = fst (retry_loop gen 3 0 [])"
    "map_sum id snd (fst (generate_persona_with_llm gen d))
       = map_sum id (\<lambda>persona_text. generate_citations d) (fst (retry_loop gen 3 0 []))"
    by (simp_all add: generate_persona_with_llm_def split: prod.splits sum.splits)
  ultimately show ?thesis
    by (simp only: retry_three [symmetric] simp_thms)
qed

theorem llm_retry_bound_witness:
  "retry_loop (\<lambda>i. if i = 1 then Inr (py ''persona'') else Inr []) 3 0 []
     = (Inr (py ''persona''), [Call 0, Sleep 2, Call 1])
   \<and> calls (snd (retry_loop (\<lambda>i. if i = 1 then Inr (py ''persona'') else Inr []) 3 0 [])) = 2
   \<and> retry_loop (\<lambda>i. Inr []) 3 0 []
     = (Inl empty_response, [Call 0, Sleep 2, Call 1, Sleep 2, Call 2])
   \<and> retry_loop (\<lambda>i. Inl (OtherException (py ''transport''))) 3 0 []
     = (Inl (OtherException (py ''transport'')), [Call 0, Sleep 2, Call 1, Sleep 2, Call 2])"
proof -
  have a: "retry_loop (\<lambda>i. if i = 1 then Inr (py ''persona'') else Inr []) 3 0 []
     = (Inr (py ''persona''), [Call 0, Sleep 2, Call 1])"
    using llm_retry_bound [of "\<lambda>i. if i = 1 then Inr (py ''persona'') else Inr []" mock_data]
    by (simp add: attempt_ok_def py_def)
  have b: "retry_loop (\<lambda>i. Inr []) 3 0 []
     = (Inl empty_response, [Call 0, Sleep 2, Call 1, Sleep 2, Call 2])"
    using llm_retry_bound [of "\<lambda>i. Inr []" mock_data]
    by (simp add: attempt_ok_def last_error_def)
  have c: "retry_loop (\<lambda>i. Inl (OtherException (py ''transport''))) 3 0 []
     = (Inl (OtherException (py ''transport'')), [Call 0, Sleep 2, Call 1, Sleep 2, Call 2])"
    using llm_retry_bound [of "\<lambda>i. Inl (OtherException (py ''transport''))" mock_data]
    by (simp add: attempt_ok_def last_error_def)
  show ?thesis
    unfolding a b c by (simp add: calls_def)
qed

end
